theory Spec2Isabelle
  imports Complex_Main
begin

section \<open>Values, errors and numpy scalars\<close>

text \<open>
  The development embeds \<^verbatim>\<open>batch_run.py\<close>: the data-collector functions
  (\<^verbatim>\<open>compute_gini\<close>, \<^verbatim>\<open>mean_money\<close>, \<^verbatim>\<open>standart_deviation\<close>, the class counts and the totals)
  and the class \<^verbatim>\<open>BankReservesModel\<close> (\<^verbatim>\<open>__init__\<close>, \<^verbatim>\<open>step\<close>, \<^verbatim>\<open>run_model\<close>).

  Python numbers (int and float) are idealised as exact reals: the rounding of float64 is
  not modelled. What is modelled of IEEE arithmetic is the part that decides control flow:
  a numpy scalar division by zero does not raise, it yields \<^verbatim>\<open>nan\<close> or an infinity, whereas a
  division of plain Python numbers by zero raises \<^verbatim>\<open>ZeroDivisionError\<close>.
\<close>

datatype py_error = ZeroDivisionError | AttributeError | ValueError

datatype np_float64 = Finite real | NaN | PosInf | NegInf

text \<open>
  \<^verbatim>\<open>a / b\<close> where \<^verbatim>\<open>b\<close> is a numpy scalar (\<^verbatim>\<open>np.sum\<close> returns one): true division
  in float64, \<^verbatim>\<open>0/0 = nan\<close>, \<^verbatim>\<open>a/0 = +-inf\<close>.
\<close>

definition np_true_divide :: "real \<Rightarrow> real \<Rightarrow> np_float64" where
  "np_true_divide a b =
     (if b \<noteq> 0 then Finite (a / b)
      else if a = 0 then NaN
      else if 0 < a then PosInf else NegInf)"

text \<open>\<^verbatim>\<open>B == 0\<close>: \<^verbatim>\<open>nan\<close> and the infinities compare unequal to zero.\<close>

fun np_eq_zero :: "np_float64 \<Rightarrow> bool" where
  "np_eq_zero (Finite b) = (b = 0)"
| "np_eq_zero NaN = False"
| "np_eq_zero PosInf = False"
| "np_eq_zero NegInf = False"

text \<open>\<^verbatim>\<open>c - 2 * B\<close> for a finite \<^verbatim>\<open>c\<close>.\<close>

fun np_sub_twice :: "real \<Rightarrow> np_float64 \<Rightarrow> np_float64" where
  "np_sub_twice c (Finite b) = Finite (c - 2 * b)"
| "np_sub_twice c NaN = NaN"
| "np_sub_twice c PosInf = NegInf"
| "np_sub_twice c NegInf = PosInf"

section \<open>Data model\<close>

text \<open>
  \<^verbatim>\<open>Person\<close> and \<^verbatim>\<open>Bank\<close> are imported from \<^verbatim>\<open>bank_reserves.agents\<close>; the record types hold
  the attributes that \<^verbatim>\<open>batch_run.py\<close> reads or passes to the constructors.
\<close>

record Person =
  unique_id :: int
  pos :: "int \<times> int"
  wallet :: real
  savings :: real
  loans :: real

record Bank =
  reserve_percent :: real
  total_deposits :: real
  total_loans :: real

text \<open>
  The attributes \<^verbatim>\<open>BankReservesModel.__init__\<close> assigns. \<^verbatim>\<open>schedule\<close> is the agent list of
  the \<^verbatim>\<open>RandomActivation\<close> scheduler in insertion order (\<^verbatim>\<open>model.schedule.agents\<close>);
  \<^verbatim>\<open>grid\<close> gives for each cell the unique ids of the agents placed there. An attribute
  that the object may lack is an option: \<open>None\<close> while no attribute of that name has been
  assigned (reading it raises \<^verbatim>\<open>AttributeError\<close>).
\<close>

record BankReservesModel =
  uid :: int
  height :: int
  width :: int
  init_people :: int
  schedule :: "Person list"
  grid :: "int \<times> int \<Rightarrow> int list"
  rich_threshold :: int
  trade_threshold :: int
  model_reserve_percent :: real
  bank :: Bank
  running :: "bool option"
  run_time :: "int option"

section \<open>Data-collector functions\<close>

definition get_total_savings :: "BankReservesModel \<Rightarrow> real" where
  "get_total_savings model = sum_list (map savings (schedule model))"

definition get_total_wallets :: "BankReservesModel \<Rightarrow> real" where
  "get_total_wallets model = sum_list (map wallet (schedule model))"

definition get_total_money :: "BankReservesModel \<Rightarrow> real" where
  "get_total_money model =
     (let wallet_money = get_total_wallets model;
          savings_money = get_total_savings model
      in wallet_money + savings_money)"

definition get_total_loans :: "BankReservesModel \<Rightarrow> real" where
  "get_total_loans model = sum_list (map loans (schedule model))"

text \<open>
  \<^verbatim>\<open>sum(xi * (N - i) for i, xi in enumerate(x))\<close>: the generator is consumed from
  index \<open>i\<close> on.
\<close>

fun weighted_sum :: "nat \<Rightarrow> nat \<Rightarrow> real list \<Rightarrow> real" where
  "weighted_sum N i [] = 0"
| "weighted_sum N i (xi # x) = xi * real_of_int (int N - int i) + weighted_sum N (Suc i) x"

text \<open>
  \<^verbatim>\<open>compute_gini\<close>. The divisor \<^verbatim>\<open>N * get_total_money(model)\<close> is a numpy scalar, so
  line 46 never raises; \<^verbatim>\<open>1 / N\<close> on line 48 divides Python ints and raises for \<open>N = 0\<close>.
\<close>

definition compute_gini :: "BankReservesModel \<Rightarrow> py_error + np_float64" where
  "compute_gini model =
     (let agent_wealths = map savings (schedule model);
          x = sort agent_wealths;
          N = length (schedule model);
          B = np_true_divide (weighted_sum N 0 x) (real N * get_total_money model)
      in if np_eq_zero B then Inr (Finite 0)
         else if N = 0 then Inl ZeroDivisionError
         else Inr (np_sub_twice (1 + 1 / real N) B))"

text \<open>\<^verbatim>\<open>mean_money\<close>: the accumulating loop, then \<^verbatim>\<open>mean /= len(...)\<close> on Python numbers.\<close>

definition mean_money :: "BankReservesModel \<Rightarrow> py_error + real" where
  "mean_money model =
     (let mean = foldl (\<lambda>mean agent. mean + savings agent) 0 (schedule model)
      in if length (schedule model) = 0 then Inl ZeroDivisionError
         else Inr (mean / real (length (schedule model))))"

text \<open>
  \<^verbatim>\<open>standart_deviation\<close>. \<^verbatim>\<open>sqrt\<close> is \<^verbatim>\<open>cmath.sqrt\<close> (line 26): the principal complex
  square root, so the result is a complex number.
\<close>

definition standart_deviation :: "BankReservesModel \<Rightarrow> py_error + complex" where
  "standart_deviation model =
     (case mean_money model of
        Inl e \<Rightarrow> Inl e
      | Inr mean \<Rightarrow>
          (let sd = foldl (\<lambda>sd agent. sd + (savings agent - mean)\<^sup>2) 0 (schedule model)
           in if length (schedule model) = 0 then Inl ZeroDivisionError
              else Inr (csqrt (complex_of_real (sd / real (length (schedule model)))))))"

definition get_num_rich_agents :: "BankReservesModel \<Rightarrow> nat" where
  "get_num_rich_agents model =
     length (filter (\<lambda>a. real_of_int (rich_threshold model) < savings a) (schedule model))"

definition get_num_poor_agents :: "BankReservesModel \<Rightarrow> nat" where
  "get_num_poor_agents model = length (filter (\<lambda>a. 10 < loans a) (schedule model))"

definition get_num_mid_agents :: "BankReservesModel \<Rightarrow> nat" where
  "get_num_mid_agents model =
     length (filter (\<lambda>a. loans a < 10 \<and> savings a < real_of_int (rich_threshold model))
               (schedule model))"

definition track_run :: "BankReservesModel \<Rightarrow> int" where
  "track_run model = uid model"

text \<open>A model state with the default constructor parameters whose schedule holds the given agents.\<close>

definition model_of_agents :: "Person list \<Rightarrow> BankReservesModel" where
  "model_of_agents ps =
     \<lparr>uid = 1, height = 20, width = 20, init_people = int (length ps), schedule = ps,
      grid = (\<lambda>c. map unique_id (filter (\<lambda>p. pos p = c) ps)),
      rich_threshold = 10, trade_threshold = 15, model_reserve_percent = 50,
      bank = \<lparr>reserve_percent = 50, total_deposits = sum_list (map savings ps),
               total_loans = sum_list (map loans ps)\<rparr>,
      running = Some True, run_time = None\<rparr>"

text \<open>
  The statistics as the specification words them: the population mean, and the population
  standard deviation that divides the sum of squared deviations by \<open>N\<close>.
\<close>

definition population_mean :: "real list \<Rightarrow> real" where
  "population_mean xs = sum_list xs / real (length xs)"

definition population_sd :: "real list \<Rightarrow> real" where
  "population_sd xs =
     sqrt (sum_list (map (\<lambda>x. (x - population_mean xs)\<^sup>2) xs) / real (length xs))"

section \<open>The random source\<close>

text \<open>
  \<^verbatim>\<open>self.random\<close> is a \<^verbatim>\<open>random.Random\<close> instance. Its state is modelled as the stream of raw
  outputs still to come; a draw below \<open>n\<close> reduces the next output modulo \<open>n\<close>, so that
  every outcome in \<open>[0, n)\<close> is the result for some stream.
  \<^verbatim>\<open>randrange(n)\<close> raises \<^verbatim>\<open>ValueError\<close> for \<open>n \<le> 0\<close>.
\<close>

type_synonym rng = "nat \<Rightarrow> nat"

definition rng_tail :: "rng \<Rightarrow> rng" where
  "rng_tail r = (\<lambda>n. r (Suc n))"

definition randrange :: "rng \<Rightarrow> int \<Rightarrow> py_error + int \<times> rng" where
  "randrange r n = (if n \<le> 0 then Inl ValueError else Inr (int (r 0) mod n, rng_tail r))"

text \<open>
  \<^verbatim>\<open>random.shuffle(x)\<close>: \<^verbatim>\<open>for i in reversed(range(1, len(x))): j = randbelow(i + 1);
  x[i], x[j] = x[j], x[i]\<close>.
\<close>

fun shuffle_loop :: "nat \<Rightarrow> 'a list \<Rightarrow> rng \<Rightarrow> 'a list \<times> rng" where
  "shuffle_loop 0 x r = (x, r)"
| "shuffle_loop (Suc k) x r =
     (let i = Suc k; j = r 0 mod (i + 1)
      in shuffle_loop k (x[i := x ! j, j := x ! i]) (rng_tail r))"

definition shuffle :: "'a list \<Rightarrow> rng \<Rightarrow> 'a list \<times> rng" where
  "shuffle x r = shuffle_loop (length x - 1) x r"

section \<open>The agents module\<close>

text \<open>
  Modelled from the spec: \<^verbatim>\<open>Person.__init__\<close> of \<^verbatim>\<open>bank_reserves/agents.py\<close>, a module
  that \<^verbatim>\<open>batch_run.py\<close> imports and that is not embedded here. A Person is created with the id and position it is given, zero
  savings and loans, and a seed wallet, here the next output of the random source.
\<close>

definition Person_init :: "int \<Rightarrow> int \<times> int \<Rightarrow> rng \<Rightarrow> Person \<times> rng" where
  "Person_init i p r =
     (\<lparr>unique_id = i, pos = p, wallet = real (r 0), savings = 0, loans = 0\<rparr>, rng_tail r)"

text \<open>
  Modelled from the spec: \<^verbatim>\<open>Bank.__init__\<close> of \<^verbatim>\<open>bank_reserves/agents.py\<close>. A Bank starts
  with the reserve percentage it is given and no deposits and no loans.
\<close>

definition Bank_init :: "real \<Rightarrow> Bank" where
  "Bank_init rp = \<lparr>reserve_percent = rp, total_deposits = 0, total_loans = 0\<rparr>"

text \<open>
  Modelled from the spec: the Bank contract of section 4.2 (the class \<^verbatim>\<open>Bank\<close> of
  \<^verbatim>\<open>bank_reserves/agents.py\<close> is not embedded here). \<open>reserves_required\<close> is
  \<^verbatim>\<open>total_deposits * reserve_percent / 100\<close> and the lendable capacity is
  \<^verbatim>\<open>total_deposits - reserves_required - total_loans\<close>.
\<close>

definition reserves_required :: "Bank \<Rightarrow> real" where
  "reserves_required b = total_deposits b * reserve_percent b / 100"

definition lendable_capacity :: "Bank \<Rightarrow> real" where
  "lendable_capacity b = total_deposits b - reserves_required b - total_loans b"

text \<open>
  Modelled from the spec: \<^verbatim>\<open>deposit(person, amount)\<close> increases the person's savings and
  the bank's aggregate deposits by \<open>amount\<close>.
\<close>

definition deposit :: "Person \<Rightarrow> real \<Rightarrow> Bank \<Rightarrow> Person \<times> Bank" where
  "deposit person amount b =
     (person\<lparr>savings := savings person + amount\<rparr>,
      b\<lparr>total_deposits := total_deposits b + amount\<rparr>)"

text \<open>
  Modelled from the spec: \<^verbatim>\<open>request_loan(person, amount)\<close> grants the full amount if the
  capacity covers it, only the capacity if \<open>0 < capacity < amount\<close>, and zero if
  \<open>capacity \<le> 0\<close>; it returns the amount granted.
\<close>

definition granted_amount :: "Bank \<Rightarrow> real \<Rightarrow> real" where
  "granted_amount b amount =
     (let capacity = lendable_capacity b
      in if amount \<le> capacity then amount
         else if 0 < capacity then capacity
         else 0)"

definition request_loan :: "Person \<Rightarrow> real \<Rightarrow> Bank \<Rightarrow> real \<times> Person \<times> Bank" where
  "request_loan person amount b =
     (let granted = granted_amount b amount
      in (granted,
          person\<lparr>loans := loans person + granted\<rparr>,
          b\<lparr>total_loans := total_loans b + granted\<rparr>))"

text \<open>
  Modelled from the spec: \<^verbatim>\<open>repay_loan(person, amount)\<close> caps the amount at the person's
  loans and decreases the person's loans and the bank's aggregate by the capped amount.
\<close>

definition repay_loan :: "Person \<Rightarrow> real \<Rightarrow> Bank \<Rightarrow> Person \<times> Bank" where
  "repay_loan person amount b =
     (let capped = min amount (loans person)
      in (person\<lparr>loans := loans person - capped\<rparr>,
          b\<lparr>total_loans := total_loans b - capped\<rparr>))"

text \<open>
  The transactions of a run: each names the person (by unique id) and the amount. The
  population is a store from unique ids to Person records.
\<close>

datatype bank_txn = Deposit int real | RequestLoan int real | RepayLoan int real

fun txn_amount :: "bank_txn \<Rightarrow> real" where
  "txn_amount (Deposit i a) = a"
| "txn_amount (RequestLoan i a) = a"
| "txn_amount (RepayLoan i a) = a"

fun apply_txn :: "(int \<Rightarrow> Person) \<times> Bank \<Rightarrow> bank_txn \<Rightarrow> (int \<Rightarrow> Person) \<times> Bank" where
  "apply_txn (people, b) (Deposit i a) =
     (case deposit (people i) a b of (p, b') \<Rightarrow> (people(i := p), b'))"
| "apply_txn (people, b) (RequestLoan i a) =
     (case request_loan (people i) a b of (granted, p, b') \<Rightarrow> (people(i := p), b'))"
| "apply_txn (people, b) (RepayLoan i a) =
     (case repay_loan (people i) a b of (p, b') \<Rightarrow> (people(i := p), b'))"

definition run_txns :: "bank_txn list \<Rightarrow> (int \<Rightarrow> Person) \<times> Bank \<Rightarrow> (int \<Rightarrow> Person) \<times> Bank" where
  "run_txns ts s = foldl apply_txn s ts"

definition reserve_invariant :: "Bank \<Rightarrow> bool" where
  "reserve_invariant b \<longleftrightarrow>
     total_loans b + total_deposits b * reserve_percent b / 100 \<le> total_deposits b"

text \<open>A population in which nobody holds anything yet.\<close>

definition fresh_people :: "int \<Rightarrow> Person" where
  "fresh_people i = \<lparr>unique_id = i, pos = (0, 0), wallet = 0, savings = 0, loans = 0\<rparr>"


section \<open>BankReservesModel\<close>

text \<open>
  The keyword arguments of \<^verbatim>\<open>BankReservesModel.__init__\<close>, together with the random source
  the new model object owns.
\<close>

record init_args =
  arg_height :: int
  arg_width :: int
  arg_init_people :: int
  arg_rich_threshold :: int
  arg_trade_threshold :: int
  arg_reserve_percent :: real
  arg_random :: rng

text \<open>\<^verbatim>\<open>range(n)\<close>: empty for \<open>n \<le> 0\<close>.\<close>

definition range_py :: "int \<Rightarrow> int list" where
  "range_py n = map int [0..<nat n]"

text \<open>
  \<^verbatim>\<open>MultiGrid.place_agent(agent, pos)\<close> appends the agent to the cell's content unless it is
  there already; \<^verbatim>\<open>RandomActivation.add(agent)\<close> stores the agent under its unique id in an
  ordered dictionary.
\<close>

definition place_agent :: "(int \<times> int \<Rightarrow> int list) \<Rightarrow> Person \<Rightarrow> int \<times> int \<Rightarrow> (int \<times> int \<Rightarrow> int list)" where
  "place_agent g p c = (if unique_id p \<in> set (g c) then g else g(c := g c @ [unique_id p]))"

definition schedule_add :: "Person list \<Rightarrow> Person \<Rightarrow> Person list" where
  "schedule_add agents p =
     (if unique_id p \<in> set (map unique_id agents)
      then map (\<lambda>q. if unique_id q = unique_id p then p else q) agents
      else agents @ [p])"

text \<open>The loop of lines 189 to 198 over the indices still to come.\<close>

fun create_people :: "int list \<Rightarrow> BankReservesModel \<Rightarrow> rng \<Rightarrow> py_error + BankReservesModel \<times> rng" where
  "create_people [] self r = Inr (self, r)"
| "create_people (i # rest) self r =
     (case randrange r (width self) of
        Inl e \<Rightarrow> Inl e
      | Inr (x, r1) \<Rightarrow>
          (case randrange r1 (height self) of
             Inl e \<Rightarrow> Inl e
           | Inr (y, r2) \<Rightarrow>
               (case Person_init i (x, y) r2 of
                  (p, r3) \<Rightarrow>
                    create_people rest
                      (self\<lparr>grid := place_agent (grid self) p (x, y),
                            schedule := schedule_add (schedule self) p\<rparr>) r3)))"

text \<open>
  \<^verbatim>\<open>__init__\<close>. The second argument and the second component of the result are the state
  of the class attribute \<^verbatim>\<open>id_gen = itertools.count(1)\<close>: the number the next call of
  \<^verbatim>\<open>next\<close> returns. Line 156 runs first, so a call that raises later has drawn its number.
\<close>

definition BankReservesModel_init ::
    "init_args \<Rightarrow> int \<Rightarrow> (py_error + BankReservesModel \<times> rng) \<times> int" where
  "BankReservesModel_init args id_gen =
     (let self = \<lparr>uid = id_gen,
                  height = arg_height args,
                  width = arg_width args,
                  init_people = arg_init_people args,
                  schedule = [],
                  grid = (\<lambda>c. []),
                  rich_threshold = arg_rich_threshold args,
                  trade_threshold = arg_trade_threshold args,
                  model_reserve_percent = arg_reserve_percent args,
                  bank = Bank_init (arg_reserve_percent args),
                  running = None,
                  run_time = None\<rparr>
      in (case create_people (range_py (init_people self)) self (arg_random args) of
            Inl e \<Rightarrow> Inl e
          | Inr (self', r) \<Rightarrow> Inr (self'\<lparr>running := Some True\<rparr>, r),
          id_gen + 1))"

text \<open>
  \<^verbatim>\<open>id_gen = itertools.count(1)\<close>: the state of the counter when the class is created.
\<close>

definition id_gen_start :: int where
  "id_gen_start = 1"

text \<open>
  A sequence of constructions in one process: the counter is threaded through the calls.
\<close>

fun construct_all :: "init_args list \<Rightarrow> int \<Rightarrow> (py_error + BankReservesModel \<times> rng) list \<times> int" where
  "construct_all [] id_gen = ([], id_gen)"
| "construct_all (args # rest) id_gen =
     (case BankReservesModel_init args id_gen of
        (res, id_gen1) \<Rightarrow>
          (case construct_all rest id_gen1 of
             (ress, id_gen2) \<Rightarrow> (res # ress, id_gen2)))"

text \<open>The uids of the models a sequence of constructions returned, in construction order.\<close>

fun constructed_uids :: "(py_error + BankReservesModel \<times> rng) list \<Rightarrow> int list" where
  "constructed_uids [] = []"
| "constructed_uids (Inl e # ress) = constructed_uids ress"
| "constructed_uids (Inr (m, r) # ress) = uid m # constructed_uids ress"

text \<open>
  \<^verbatim>\<open>step\<close> calls \<^verbatim>\<open>RandomActivation.step\<close>: the keys of the agent dictionary are shuffled and
  each agent still scheduled under its key is activated once. \<^verbatim>\<open>Person.step\<close> belongs to
  \<^verbatim>\<open>bank_reserves/agents.py\<close> and is a parameter: the activation of the agent with a given
  unique id, acting on the model and its random source.
\<close>

type_synonym person_step = "int \<Rightarrow> BankReservesModel \<times> rng \<Rightarrow> BankReservesModel \<times> rng"

definition activate :: "person_step \<Rightarrow> BankReservesModel \<times> rng \<Rightarrow> int \<Rightarrow> BankReservesModel \<times> rng" where
  "activate pstep s key =
     (if key \<in> set (map unique_id (schedule (fst s))) then pstep key s else s)"

definition step :: "person_step \<Rightarrow> BankReservesModel \<times> rng \<Rightarrow> BankReservesModel \<times> rng" where
  "step pstep s =
     (case shuffle (map unique_id (schedule (fst s))) (snd s) of
        (agent_keys, r1) \<Rightarrow> foldl (activate pstep) (fst s, r1) agent_keys)"

text \<open>The loop \<^verbatim>\<open>for i in range(n): self.step()\<close>.\<close>

fun run_steps :: "person_step \<Rightarrow> nat \<Rightarrow> BankReservesModel \<times> rng \<Rightarrow> BankReservesModel \<times> rng" where
  "run_steps pstep 0 s = s"
| "run_steps pstep (Suc n) s = run_steps pstep n (step pstep s)"

text \<open>\<^verbatim>\<open>run_model\<close> reads the attribute \<^verbatim>\<open>run_time\<close> to build the range.\<close>

definition run_model ::
    "person_step \<Rightarrow> BankReservesModel \<times> rng \<Rightarrow> py_error + BankReservesModel \<times> rng" where
  "run_model pstep s =
     (case run_time (fst s) of
        None \<Rightarrow> Inl AttributeError
      | Some n \<Rightarrow> Inr (run_steps pstep (length (range_py n)) s))"

text \<open>
  Modelled from the spec: \<^verbatim>\<open>Person.step\<close> of \<^verbatim>\<open>bank_reserves/agents.py\<close>, which is not
  embedded here. Persons are created once at model initialization and never
  destroyed during a run: an activation leaves the scheduled agents' identities as they are.
\<close>

definition keeps_population :: "person_step \<Rightarrow> bool" where
  "keeps_population pstep \<longleftrightarrow>
     (\<forall>key s. map unique_id (schedule (fst (pstep key s))) = map unique_id (schedule (fst s)))"

text \<open>
  An activation in the manner of section 4.3 of the specification: the agent deposits its
  whole wallet into the bank.
\<close>

definition deposit_wallet_step :: person_step where
  "deposit_wallet_step key s =
     (case find (\<lambda>p. unique_id p = key) (schedule (fst s)) of
        None \<Rightarrow> s
      | Some p \<Rightarrow>
          (case deposit p (wallet p) (bank (fst s)) of
             (p', b') \<Rightarrow>
               ((fst s)\<lparr>schedule := map (\<lambda>q. if unique_id q = key then p'\<lparr>wallet := 0\<rparr> else q)
                                      (schedule (fst s)),
                        bank := b'\<rparr>,
                snd s)))"

text \<open>Constructor arguments of a small trial: a 5 by 5 grid and two people.\<close>

definition small_args :: init_args where
  "small_args =
     \<lparr>arg_height = 5, arg_width = 5, arg_init_people = 2, arg_rich_threshold = 10,
      arg_trade_threshold = 15, arg_reserve_percent = 50, arg_random = (\<lambda>n. 3 * n + 1)\<rparr>"


text \<open>Two one-agent populations: an agent that holds nothing, and one with 9 in the wallet
  and 1 in savings.\<close>

definition penniless :: Person where
  "penniless = \<lparr>unique_id = 0, pos = (0, 0), wallet = 0, savings = 0, loans = 0\<rparr>"

definition small_saver :: Person where
  "small_saver = \<lparr>unique_id = 0, pos = (0, 0), wallet = 9, savings = 1, loans = 0\<rparr>"

text \<open>An agent whose loans are exactly 10 and whose savings are below the default threshold.\<close>

definition borderline :: Person where
  "borderline = \<lparr>unique_id = 0, pos = (0, 0), wallet = 0, savings = 3, loans = 10\<rparr>"

text \<open>A population of two agents with savings 3 and 1 and empty wallets.\<close>

definition two_savers :: "Person list" where
  "two_savers =
     [\<lparr>unique_id = 0, pos = (0, 0), wallet = 0, savings = 3, loans = 0\<rparr>,
      \<lparr>unique_id = 1, pos = (1, 0), wallet = 0, savings = 1, loans = 0\<rparr>]"

text \<open>
  The state of a bank and its customers is in order when the reserve inequality holds, the
  reserve percentage lies between 0 and 100, and nobody's loans are negative.
\<close>

definition bank_state_ok :: "(int \<Rightarrow> Person) \<times> Bank \<Rightarrow> bool" where
  "bank_state_ok s \<longleftrightarrow>
     reserve_invariant (snd s) \<and> 0 \<le> reserve_percent (snd s) \<and> reserve_percent (snd s) \<le> 100
     \<and> (\<forall>i. 0 \<le> loans (fst s i))"

text \<open>A deposit, a loan request above the capacity it leaves, and a repayment.\<close>

definition sample_txns :: "bank_txn list" where
  "sample_txns = [Deposit 0 100, RequestLoan 1 80, RepayLoan 1 20]"

text \<open>
  Every scheduled agent is in the content of the grid cell at its own position, and that
  position lies on the grid.
\<close>

definition grid_consistent :: "BankReservesModel \<Rightarrow> bool" where
  "grid_consistent m \<longleftrightarrow>
     (\<forall>p\<in>set (schedule m). unique_id p \<in> set (grid m (pos p))
        \<and> 0 \<le> fst (pos p) \<and> fst (pos p) < width m
        \<and> 0 \<le> snd (pos p) \<and> snd (pos p) < height m)"

text \<open>Constructor arguments with a grid of width 0.\<close>

definition zero_width_args :: init_args where
  "zero_width_args =
     \<lparr>arg_height = 5, arg_width = 0, arg_init_people = 2, arg_rich_threshold = 10,
      arg_trade_threshold = 15, arg_reserve_percent = 50, arg_random = (\<lambda>n. 3 * n + 1)\<rparr>"

section \<open>Properties of the data-collector functions\<close>

lemma foldl_add_sum_list: "foldl (\<lambda>acc a. acc + f a) s xs = s + sum_list (map f xs)"
  by (induction xs arbitrary: s) (simp_all add: add.assoc)

lemma mean_money_population_mean:
  "schedule model \<noteq> [] \<Longrightarrow>
   mean_money model = Inr (population_mean (map savings (schedule model)))"
  by (simp add: mean_money_def population_mean_def foldl_add_sum_list)

lemma mean_money_empty: "schedule model = [] \<Longrightarrow> mean_money model = Inl ZeroDivisionError"
  by (simp add: mean_money_def)

lemma population_variance_nonneg:
  "0 \<le> sum_list (map (\<lambda>x. (x - c)\<^sup>2) xs) / real (length xs)"
  by (intro divide_nonneg_nonneg sum_list_nonneg) auto

lemma population_sd_nonneg: "0 \<le> population_sd xs"
  by (simp only: population_sd_def real_sqrt_ge_0_iff population_variance_nonneg)

lemma standart_deviation_population_sd:
  assumes ne: "schedule model \<noteq> []"
  shows "standart_deviation model =
     Inr (complex_of_real (population_sd (map savings (schedule model))))"
proof -
  let ?xs = "map savings (schedule model)"
  let ?v = "sum_list (map (\<lambda>x. (x - population_mean ?xs)\<^sup>2) ?xs) / real (length ?xs)"
  have "0 \<le> ?v" by (rule population_variance_nonneg)
  then have "csqrt (complex_of_real ?v) = complex_of_real (sqrt ?v)"
    by (rule csqrt_of_real)
  then show ?thesis
    using ne
    by (simp only: standart_deviation_def mean_money_population_mean [OF ne] sum.case Let_def
        foldl_add_sum_list population_sd_def)
      (simp add: comp_def)
qed

lemma weighted_sum_index:
  "weighted_sum N k x = (\<Sum>i<length x. x ! i * (real N - real (k + i)))"
proof (induction x arbitrary: k)
  case Nil
  show ?case by simp
next
  case (Cons xi x)
  show ?case
    by (simp add: Cons.IH sum.lessThan_Suc_shift algebra_simps del: sum.lessThan_Suc)
qed

lemma compute_gini_zero_money_not_zero:
  assumes "get_total_money model = 0"
  shows "compute_gini model \<noteq> Inr (Finite 0)"
proof (cases "schedule model = []")
  case True
  then show ?thesis
    using assms by (simp add: compute_gini_def np_true_divide_def)
next
  case False
  then show ?thesis
    using assms by (simp add: compute_gini_def np_true_divide_def Let_def)
qed

text \<open>
  C1. The claim: for every model whose total money is 0, \<^verbatim>\<open>compute_gini\<close> returns exactly 0
  instead of failing by division by zero. The code has no such case: line 46 divides by
  \<^verbatim>\<open>N * get_total_money(model)\<close> before the test \<^verbatim>\<open>B == 0\<close>. For the population of one agent
  with an empty wallet and no savings the total money is 0, the division is \<^verbatim>\<open>0 / 0\<close> on a
  numpy scalar, and the function returns \<^verbatim>\<open>nan\<close>, not 0.
\<close>

theorem compute_gini_zero_money_nan:
  "get_total_money (model_of_agents [penniless]) = 0
   \<and> compute_gini (model_of_agents [penniless]) = Inr NaN"
  by (simp add: compute_gini_def model_of_agents_def penniless_def get_total_money_def
      get_total_wallets_def get_total_savings_def np_true_divide_def)

text \<open>
  C2. An agent with loans exactly 10 and savings below \<^verbatim>\<open>rich_threshold\<close> is counted in the
  poor count only if \<^verbatim>\<open>loans > 10\<close> and in the middle count only if \<^verbatim>\<open>loans < 10\<close>, so it is
  counted in neither: with such an agent at any place of the population, the poor count and
  the middle count (and the rich count) are what they are without it, while the population
  is larger by one. The three counts do not partition the population.
\<close>

theorem classification_gap:
  assumes "loans a = 10" and "savings a < real_of_int (rich_threshold model)"
  shows "get_num_poor_agents (model\<lparr>schedule := xs @ a # ys\<rparr>)
           = get_num_poor_agents (model\<lparr>schedule := xs @ ys\<rparr>)
       \<and> get_num_mid_agents (model\<lparr>schedule := xs @ a # ys\<rparr>)
           = get_num_mid_agents (model\<lparr>schedule := xs @ ys\<rparr>)
       \<and> get_num_rich_agents (model\<lparr>schedule := xs @ a # ys\<rparr>)
           = get_num_rich_agents (model\<lparr>schedule := xs @ ys\<rparr>)
       \<and> length (schedule (model\<lparr>schedule := xs @ a # ys\<rparr>))
           = Suc (length (schedule (model\<lparr>schedule := xs @ ys\<rparr>)))"
  using assms
  by (simp add: get_num_poor_agents_def get_num_mid_agents_def get_num_rich_agents_def)

theorem classification_gap_witness:
  "loans borderline = 10
   \<and> savings borderline < real_of_int (rich_threshold (model_of_agents []))
   \<and> get_num_poor_agents ((model_of_agents [])\<lparr>schedule := [borderline]\<rparr>) = 0
   \<and> get_num_mid_agents ((model_of_agents [])\<lparr>schedule := [borderline]\<rparr>) = 0
   \<and> get_num_rich_agents ((model_of_agents [])\<lparr>schedule := [borderline]\<rparr>) = 0
   \<and> length (schedule ((model_of_agents [])\<lparr>schedule := [borderline]\<rparr>)) = 1"
proof -
  have h1: "loans borderline = 10"
    by (simp add: borderline_def)
  have h2: "savings borderline < real_of_int (rich_threshold (model_of_agents []))"
    by (simp add: borderline_def model_of_agents_def)
  have e: "get_num_poor_agents ((model_of_agents [])\<lparr>schedule := []\<rparr>) = 0"
    "get_num_mid_agents ((model_of_agents [])\<lparr>schedule := []\<rparr>) = 0"
    "get_num_rich_agents ((model_of_agents [])\<lparr>schedule := []\<rparr>) = 0"
    by (simp_all add: get_num_poor_agents_def get_num_mid_agents_def get_num_rich_agents_def)
  show ?thesis
    using h1 h2 e classification_gap [OF h1 h2, of "[]" "[]"] by simp
qed

text \<open>
  C3. The claim: for every model with a non-empty population and total money greater than 0,
  the value of \<^verbatim>\<open>compute_gini\<close> lies in \<open>[0, 1]\<close>. The code weighs the sorted savings but
  divides by the total money, wallets included. For the population of one agent with 9 in
  the wallet and 1 in savings it returns \<open>9/5\<close>.
\<close>

theorem compute_gini_above_one:
  "schedule (model_of_agents [small_saver]) \<noteq> []
   \<and> 0 < get_total_money (model_of_agents [small_saver])
   \<and> compute_gini (model_of_agents [small_saver]) = Inr (Finite (9 / 5))
   \<and> \<not> (9 / 5 \<le> (1::real))"
  by (simp add: compute_gini_def model_of_agents_def small_saver_def get_total_money_def
      get_total_wallets_def get_total_savings_def np_true_divide_def)

text \<open>
  Where the divisor is what a Gini coefficient divides by, the value is one: with
  non-negative savings and wallets the result is never negative, and it is at most 1 when
  the wallets are empty, that is when the total money is the total of the sorted savings.
\<close>

lemma weighted_sum_lower:
  "\<forall>v\<in>set x. 0 \<le> v \<Longrightarrow> i + length x = N \<Longrightarrow> sum_list x \<le> weighted_sum N i x"
proof (induction x arbitrary: i)
  case Nil
  show ?case by simp
next
  case (Cons xi x)
  have w: "1 \<le> real_of_int (int N - int i)"
    using Cons.prems(2) by simp
  have "xi * 1 \<le> xi * real_of_int (int N - int i)"
    using Cons.prems(1) w by (intro mult_left_mono) simp_all
  moreover have "sum_list x \<le> weighted_sum N (Suc i) x"
    using Cons.prems by (intro Cons.IH) simp_all
  ultimately show ?case by simp
qed

lemma sorted_head_le_sum:
  "\<forall>v\<in>set x. a \<le> v \<Longrightarrow> real (length x) * a \<le> sum_list x"
  by (induction x) (simp_all add: algebra_simps)

lemma sum_list_insort: "sum_list (insort a xs) = a + sum_list (xs::real list)"
  by (induction xs) simp_all

lemma sum_list_sort: "sum_list (sort xs) = sum_list (xs::real list)"
  by (induction xs) (simp_all add: sum_list_insort)

lemma weighted_sum_upper:
  "sorted x \<Longrightarrow> i + length x = N \<Longrightarrow>
   2 * weighted_sum N i x \<le> (real (length x) + 1) * sum_list x"
proof (induction x arbitrary: i)
  case Nil
  show ?case by simp
next
  case (Cons xi x)
  have n: "real_of_int (int N - int i) = real (length x) + 1"
    using Cons.prems(2) by auto
  have ih: "2 * weighted_sum N (Suc i) x \<le> (real (length x) + 1) * sum_list x"
    using Cons.prems by (intro Cons.IH) simp_all
  have e: "weighted_sum N i (xi # x) = xi * (real (length x) + 1) + weighted_sum N (Suc i) x"
    by (simp only: weighted_sum.simps n)
  have h: "real (length x) * xi \<le> sum_list x"
    using Cons.prems(1) by (intro sorted_head_le_sum) simp
  show ?case
    unfolding e using ih h by (simp add: algebra_simps)
qed

lemma compute_gini_bounds:
  assumes ne: "schedule model \<noteq> []"
    and sv: "\<forall>a\<in>set (schedule model). 0 \<le> savings a"
    and wl: "0 \<le> get_total_wallets model"
    and m: "0 < get_total_money model"
  shows "\<exists>g. compute_gini model = Inr (Finite g) \<and> 0 \<le> g
           \<and> g \<le> 1 + 1 / real (length (schedule model))
           \<and> (get_total_wallets model = 0 \<longrightarrow> g \<le> 1)"
proof -
  let ?x = "sort (map savings (schedule model))"
  let ?N = "length (schedule model)"
  let ?M = "get_total_money model"
  let ?W = "weighted_sum ?N 0 ?x"
  let ?S = "sum_list ?x"
  have N: "0 < real ?N" using ne by simp
  have len: "0 + length ?x = ?N" by simp
  have pos: "\<forall>v\<in>set ?x. 0 \<le> v" using sv by auto
  have S: "?S = get_total_savings model"
    by (simp add: get_total_savings_def sum_list_sort)
  have S0: "0 \<le> ?S"
    using pos by (intro sum_list_nonneg) auto
  have SM: "?S \<le> ?M"
    using wl S by (simp add: get_total_money_def)
  have lo: "?S \<le> ?W" using pos len by (rule weighted_sum_lower)
  have up: "2 * ?W \<le> (real ?N + 1) * ?S"
    using weighted_sum_upper [of ?x 0 ?N] by simp
  have NM: "0 < real ?N * ?M" using N m by simp
  define B where "B = ?W / (real ?N * ?M)"
  have B0: "0 \<le> B" using lo S0 NM by (simp add: B_def)
  have "2 * ?W \<le> (real ?N + 1) * ?M"
  proof -
    have "(real ?N + 1) * ?S \<le> (real ?N + 1) * ?M"
      using SM by (intro mult_left_mono) simp_all
    with up show ?thesis by (rule order_trans)
  qed
  then have "2 * B \<le> (real ?N + 1) / real ?N"
    using N m NM by (simp add: B_def field_simps)
  then have Bup: "2 * B \<le> 1 + 1 / real ?N"
    using N by (simp add: field_simps)
  have Blo: "get_total_wallets model = 0 \<Longrightarrow> 1 / real ?N \<le> B"
  proof -
    assume "get_total_wallets model = 0"
    then have "?M = ?S" using S by (simp add: get_total_money_def)
    then have "?M \<le> ?W" using lo by simp
    then show ?thesis using N m NM by (simp add: B_def field_simps)
  qed
  have g: "compute_gini model = Inr (Finite (if B = 0 then 0 else 1 + 1 / real ?N - 2 * B))"
    using ne m by (simp add: compute_gini_def Let_def np_true_divide_def B_def)
  show ?thesis
    using g B0 Bup Blo N by (auto simp add: field_simps)
qed

text \<open>
  C4. For every model with a non-empty population and total money \<open>M > 0\<close>, \<^verbatim>\<open>compute_gini\<close>
  returns \<open>1 + 1/N - 2 B\<close>, where \<open>x\<close> is the savings sorted ascending, \<open>N\<close> the population size
  and \<open>B = (\<Sum>i<N. x\<^sub>i (N - i)) / (N M)\<close> with zero-based \<open>i\<close>, except that it returns 0 when
  \<open>B = 0\<close>.
\<close>

theorem compute_gini_formula:
  assumes "schedule model \<noteq> []" and "0 < get_total_money model"
  shows "compute_gini model =
    Inr (Finite (let x = sort (map savings (schedule model));
                     N = length (schedule model);
                     M = get_total_money model;
                     B = (\<Sum>i<N. x ! i * (real N - real i)) / (real N * M)
                 in if B = 0 then 0 else 1 + 1 / real N - 2 * B))"
  using assms
  by (simp add: compute_gini_def Let_def np_true_divide_def weighted_sum_index)

theorem compute_gini_formula_witness:
  "schedule (model_of_agents two_savers) \<noteq> []
   \<and> 0 < get_total_money (model_of_agents two_savers)
   \<and> compute_gini (model_of_agents two_savers) = Inr (Finite (1 / 4))"
proof -
  have h1: "schedule (model_of_agents two_savers) \<noteq> []"
    by (simp add: model_of_agents_def two_savers_def)
  have m: "get_total_money (model_of_agents two_savers) = 4"
    by (simp add: model_of_agents_def two_savers_def get_total_money_def get_total_wallets_def
        get_total_savings_def)
  have h2: "0 < get_total_money (model_of_agents two_savers)"
    by (simp add: m)
  have s: "schedule (model_of_agents two_savers) = two_savers"
    by (simp add: model_of_agents_def)
  have v: "(let x = sort (map savings two_savers); N = length two_savers; M = 4::real;
                B = (\<Sum>i<N. x ! i * (real N - real i)) / (real N * M)
            in if B = 0 then 0 else 1 + 1 / real N - 2 * B) = 1 / 4"
    by (simp add: two_savers_def lessThan_Suc eval_nat_numeral Let_def)
  have "compute_gini (model_of_agents two_savers) = Inr (Finite (1 / 4))"
    using compute_gini_formula [OF h1 h2] by (simp only: s m v)
  then show ?thesis
    using h1 h2 by simp
qed

lemma two_savers_mean: "population_mean (map savings two_savers) = 2"
  by (simp add: population_mean_def two_savers_def)

lemma two_savers_sd: "population_sd (map savings two_savers) = 1"
  by (simp add: population_sd_def two_savers_mean) (simp add: two_savers_def)

text \<open>
  C5. For every model with a non-empty population, \<^verbatim>\<open>mean_money\<close> returns the population
  mean of the agents' savings (their sum divided by \<open>N\<close>), and \<^verbatim>\<open>standart_deviation\<close> returns
  the population standard deviation of the savings: the sum of squared deviations from that
  mean is divided by \<open>N\<close>, not by \<open>N - 1\<close>, before the square root is taken.
\<close>

theorem mean_and_standard_deviation:
  assumes "schedule model \<noteq> []"
  shows "mean_money model = Inr (population_mean (map savings (schedule model)))
       \<and> standart_deviation model =
           Inr (complex_of_real (population_sd (map savings (schedule model))))"
  using mean_money_population_mean [OF assms] standart_deviation_population_sd [OF assms]
  by simp

theorem mean_and_standard_deviation_witness:
  "schedule (model_of_agents two_savers) \<noteq> []
   \<and> mean_money (model_of_agents two_savers) = Inr 2
   \<and> standart_deviation (model_of_agents two_savers) = Inr 1"
proof -
  have h1: "schedule (model_of_agents two_savers) \<noteq> []"
    by (simp add: model_of_agents_def two_savers_def)
  have s: "schedule (model_of_agents two_savers) = two_savers"
    by (simp add: model_of_agents_def)
  show ?thesis
    using h1 mean_and_standard_deviation [OF h1]
    by (simp only: s two_savers_mean two_savers_sd) simp
qed

text \<open>
  C10. For every model with a non-empty population, \<^verbatim>\<open>standart_deviation\<close> returns a complex
  number (it calls \<^verbatim>\<open>cmath.sqrt\<close>), whose real part is the non-negative population standard
  deviation of the savings and whose imaginary part is 0.
\<close>

theorem standart_deviation_complex:
  assumes "schedule model \<noteq> []"
  shows "\<exists>z::complex. standart_deviation model = Inr z
           \<and> Re z = population_sd (map savings (schedule model))
           \<and> 0 \<le> Re z \<and> Im z = 0"
  using standart_deviation_population_sd [OF assms]
  by (simp add: population_sd_nonneg)

theorem standart_deviation_complex_witness:
  "schedule (model_of_agents two_savers) \<noteq> []
   \<and> (\<exists>z::complex. standart_deviation (model_of_agents two_savers) = Inr z
          \<and> Re z = 1 \<and> 0 \<le> Re z \<and> Im z = 0)"
proof -
  have h1: "schedule (model_of_agents two_savers) \<noteq> []"
    by (simp add: model_of_agents_def two_savers_def)
  have s: "schedule (model_of_agents two_savers) = two_savers"
    by (simp add: model_of_agents_def)
  show ?thesis
    using h1 standart_deviation_complex [OF h1]
    by (simp only: s two_savers_sd) simp
qed

section \<open>The bank of the specification\<close>

lemma reserve_invariant_capacity: "reserve_invariant b \<longleftrightarrow> 0 \<le> lendable_capacity b"
  by (auto simp add: reserve_invariant_def lendable_capacity_def reserves_required_def)

lemma granted_amount_bounds:
  "0 \<le> lendable_capacity b \<Longrightarrow> 0 \<le> amount \<Longrightarrow>
   0 \<le> granted_amount b amount \<and> granted_amount b amount \<le> lendable_capacity b"
  by (simp add: granted_amount_def Let_def)

lemma deposit_ok:
  assumes "bank_state_ok (people, b)" and "0 \<le> a"
  shows "bank_state_ok (apply_txn (people, b) (Deposit i a))"
proof -
  have "a * reserve_percent b \<le> a * 100"
    using assms by (intro mult_left_mono) (simp_all add: bank_state_ok_def)
  then show ?thesis
    using assms
    by (simp add: bank_state_ok_def deposit_def reserve_invariant_def algebra_simps add_divide_distrib)
qed

lemma request_loan_ok:
  assumes "bank_state_ok (people, b)" and "0 \<le> a"
  shows "bank_state_ok (apply_txn (people, b) (RequestLoan i a))"
proof -
  have c: "0 \<le> lendable_capacity b"
    using assms by (simp add: bank_state_ok_def reserve_invariant_capacity)
  have g: "0 \<le> granted_amount b a \<and> granted_amount b a \<le> lendable_capacity b"
    using c assms(2) by (rule granted_amount_bounds)
  then show ?thesis
    using assms
    by (simp add: bank_state_ok_def request_loan_def Let_def reserve_invariant_capacity
        lendable_capacity_def reserves_required_def)
qed

lemma repay_loan_ok:
  assumes "bank_state_ok (people, b)" and "0 \<le> a"
  shows "bank_state_ok (apply_txn (people, b) (RepayLoan i a))"
proof -
  have l: "0 \<le> loans (people i)"
    using assms by (simp add: bank_state_ok_def)
  define capped where "capped = min a (loans (people i))"
  have c: "0 \<le> capped" "capped \<le> loans (people i)"
    using l assms(2) by (simp_all add: capped_def)
  have r: "repay_loan (people i) a b =
      ((people i)\<lparr>loans := loans (people i) - capped\<rparr>, b\<lparr>total_loans := total_loans b - capped\<rparr>)"
    by (simp add: repay_loan_def capped_def Let_def)
  have "reserve_invariant (b\<lparr>total_loans := total_loans b - capped\<rparr>)"
    using assms(1) c(1) by (simp add: bank_state_ok_def reserve_invariant_def)
  then show ?thesis
    using assms(1) c(2) by (simp add: bank_state_ok_def r)
qed

lemma apply_txn_ok:
  assumes "bank_state_ok s" and "0 \<le> txn_amount t"
  shows "bank_state_ok (apply_txn s t)"
proof (cases s)
  case (Pair people b)
  show ?thesis
  proof (cases t)
    case (Deposit i a)
    then show ?thesis using assms Pair deposit_ok by simp
  next
    case (RequestLoan i a)
    then show ?thesis using assms Pair request_loan_ok by simp
  next
    case (RepayLoan i a)
    then show ?thesis using assms Pair repay_loan_ok by simp
  qed
qed

lemma run_txns_ok:
  "bank_state_ok s \<Longrightarrow> \<forall>t\<in>set ts. 0 \<le> txn_amount t \<Longrightarrow> bank_state_ok (run_txns ts s)"
  unfolding run_txns_def
proof (induction ts arbitrary: s)
  case Nil
  then show ?case by simp
next
  case (Cons t ts)
  then show ?case by (simp add: apply_txn_ok)
qed

text \<open>
  C8. After every transaction the Bank authorizes (deposit, loan grant, loan repayment) the
  state satisfies \<^verbatim>\<open>total_loans + total_deposits * reserve_percent / 100 <= total_deposits\<close>,
  and a loan request exceeding the lendable capacity is granted only partially (exactly the
  remaining capacity) or refused (zero granted), never violating the inequality. The Bank
  is the one of section 4.2 of the specification. The run starts in a state where the
  inequality holds (as in a new bank) and nobody's loans are negative, the reserve
  percentage lies between 0 and 100, and the amounts of the transactions are not negative;
  the inequality is stated after every prefix of the run.
\<close>

theorem bank_reserve_invariant:
  assumes "0 \<le> reserve_percent b" and "reserve_percent b \<le> 100"
    and "reserve_invariant b"
    and "\<forall>i. 0 \<le> loans (people i)"
    and "\<forall>t\<in>set ts. 0 \<le> txn_amount t"
  shows "\<forall>n\<le>length ts.
           reserve_invariant (snd (run_txns (take n ts) (people, b)))
           \<and> (\<forall>person amount.
                 lendable_capacity (snd (run_txns (take n ts) (people, b))) < amount \<longrightarrow>
                 fst (request_loan person amount (snd (run_txns (take n ts) (people, b))))
                   = (if 0 < lendable_capacity (snd (run_txns (take n ts) (people, b)))
                      then lendable_capacity (snd (run_txns (take n ts) (people, b))) else 0)
                 \<and> reserve_invariant
                     (snd (snd (request_loan person amount
                                  (snd (run_txns (take n ts) (people, b)))))))"
proof (intro allI impI)
  fix n
  assume "n \<le> length ts"
  let ?s = "run_txns (take n ts) (people, b)"
  have "bank_state_ok (people, b)"
    using assms by (simp add: bank_state_ok_def)
  moreover have "\<forall>t\<in>set (take n ts). 0 \<le> txn_amount t"
    using assms(5) by (meson in_set_takeD)
  ultimately have ok: "bank_state_ok ?s"
    by (rule run_txns_ok)
  then have inv: "reserve_invariant (snd ?s)"
    by (simp add: bank_state_ok_def)
  then have c: "0 \<le> lendable_capacity (snd ?s)"
    by (simp add: reserve_invariant_capacity)
  have "\<forall>person amount. lendable_capacity (snd ?s) < amount \<longrightarrow>
          fst (request_loan person amount (snd ?s))
            = (if 0 < lendable_capacity (snd ?s) then lendable_capacity (snd ?s) else 0)
          \<and> reserve_invariant (snd (snd (request_loan person amount (snd ?s))))"
    using c
    by (auto simp add: request_loan_def granted_amount_def Let_def reserve_invariant_capacity
        lendable_capacity_def reserves_required_def)
  with inv show "reserve_invariant (snd ?s)
     \<and> (\<forall>person amount. lendable_capacity (snd ?s) < amount \<longrightarrow>
          fst (request_loan person amount (snd ?s))
            = (if 0 < lendable_capacity (snd ?s) then lendable_capacity (snd ?s) else 0)
          \<and> reserve_invariant (snd (snd (request_loan person amount (snd ?s)))))"
    by simp
qed

lemma sample_txns_run:
  "total_deposits (snd (run_txns (take (Suc 0) sample_txns) (fresh_people, Bank_init 50))) = 100"
  "total_loans (snd (run_txns (take (Suc 0) sample_txns) (fresh_people, Bank_init 50))) = 0"
  "reserve_percent (snd (run_txns (take (Suc 0) sample_txns) (fresh_people, Bank_init 50))) = 50"
  by (simp_all add: run_txns_def sample_txns_def Bank_init_def fresh_people_def deposit_def)

theorem bank_reserve_invariant_witness:
  "0 \<le> reserve_percent (Bank_init 50) \<and> reserve_percent (Bank_init 50) \<le> 100
   \<and> reserve_invariant (Bank_init 50)
   \<and> (\<forall>i. 0 \<le> loans (fresh_people i))
   \<and> map txn_amount sample_txns = [100, 80, 20]
   \<and> 3 \<le> length sample_txns
   \<and> reserve_invariant (snd (run_txns (take 3 sample_txns) (fresh_people, Bank_init 50)))
   \<and> Suc 0 \<le> length sample_txns
   \<and> lendable_capacity (snd (run_txns (take (Suc 0) sample_txns) (fresh_people, Bank_init 50))) < 80
   \<and> fst (request_loan (fresh_people 1) 80
             (snd (run_txns (take (Suc 0) sample_txns) (fresh_people, Bank_init 50)))) = 50"
proof -
  have h1: "0 \<le> reserve_percent (Bank_init 50)" and h2: "reserve_percent (Bank_init 50) \<le> 100"
    by (simp_all add: Bank_init_def)
  have h3: "reserve_invariant (Bank_init 50)"
    by (simp add: Bank_init_def reserve_invariant_def)
  have h4: "\<forall>i. 0 \<le> loans (fresh_people i)"
    by (simp add: fresh_people_def)
  have h5: "\<forall>t\<in>set sample_txns. 0 \<le> txn_amount t"
    by (simp add: sample_txns_def)
  have l: "length sample_txns = 3"
    by (simp add: sample_txns_def)
  have c: "lendable_capacity (snd (run_txns (take (Suc 0) sample_txns) (fresh_people, Bank_init 50))) = 50"
    unfolding lendable_capacity_def reserves_required_def sample_txns_run by simp
  note t = bank_reserve_invariant [OF h1 h2 h3 h4 h5]
  have a: "reserve_invariant (snd (run_txns (take 3 sample_txns) (fresh_people, Bank_init 50)))"
    using t [THEN spec, of 3] l by simp
  have "\<forall>person amount.
          lendable_capacity (snd (run_txns (take (Suc 0) sample_txns) (fresh_people, Bank_init 50))) < amount \<longrightarrow>
          fst (request_loan person amount
                 (snd (run_txns (take (Suc 0) sample_txns) (fresh_people, Bank_init 50))))
            = (if 0 < lendable_capacity (snd (run_txns (take (Suc 0) sample_txns) (fresh_people, Bank_init 50)))
               then lendable_capacity (snd (run_txns (take (Suc 0) sample_txns) (fresh_people, Bank_init 50)))
               else 0)
          \<and> reserve_invariant
              (snd (snd (request_loan person amount
                           (snd (run_txns (take (Suc 0) sample_txns) (fresh_people, Bank_init 50))))))"
    using t [THEN spec, of "Suc 0"] l by simp
  then have "lendable_capacity (snd (run_txns (take (Suc 0) sample_txns) (fresh_people, Bank_init 50))) < 80 \<longrightarrow>
          fst (request_loan (fresh_people 1) 80
                 (snd (run_txns (take (Suc 0) sample_txns) (fresh_people, Bank_init 50))))
            = (if 0 < lendable_capacity (snd (run_txns (take (Suc 0) sample_txns) (fresh_people, Bank_init 50)))
               then lendable_capacity (snd (run_txns (take (Suc 0) sample_txns) (fresh_people, Bank_init 50)))
               else 0)"
    by blast
  then have g: "fst (request_loan (fresh_people 1) 80
             (snd (run_txns (take (Suc 0) sample_txns) (fresh_people, Bank_init 50)))) = 50"
    by (simp add: c)
  have h5': "map txn_amount sample_txns = [100, 80, 20]"
    by (simp add: sample_txns_def)
  show ?thesis
    using h1 h2 h3 h4 h5' l a c g by simp
qed

section \<open>Construction, steps and runs\<close>

lemma randrange_Inr:
  "randrange r n = Inr (x, r') \<Longrightarrow> 0 \<le> x \<and> x < n \<and> r' = rng_tail r"
  by (auto simp add: randrange_def split: if_splits)

lemma create_people_fields:
  "create_people is m r = Inr (m', r') \<Longrightarrow>
   uid m' = uid m \<and> run_time m' = run_time m \<and> init_people m' = init_people m
   \<and> width m' = width m \<and> height m' = height m \<and> running m' = running m \<and> bank m' = bank m"
proof (induction "is" arbitrary: m r)
  case Nil
  then show ?case by simp
next
  case (Cons i rest)
  then show ?case
    by (fastforce split: sum.splits prod.splits)
qed

lemma schedule_add_fresh:
  "unique_id p \<notin> set (map unique_id agents) \<Longrightarrow> schedule_add agents p = agents @ [p]"
  by (simp add: schedule_add_def)

lemma Person_init_fields:
  "Person_init i c r = (p, r') \<Longrightarrow> unique_id p = i \<and> pos p = c \<and> savings p = 0 \<and> loans p = 0"
  by (auto simp add: Person_init_def)

lemma create_people_ids:
  "create_people is m r = Inr (m', r') \<Longrightarrow> distinct is \<Longrightarrow>
   set is \<inter> set (map unique_id (schedule m)) = {} \<Longrightarrow>
   map unique_id (schedule m') = map unique_id (schedule m) @ is"
proof (induction "is" arbitrary: m r)
  case Nil
  then show ?case by simp
next
  case (Cons i rest)
  from Cons.prems(1) obtain x r1 y r2 p r3 where
    x: "randrange r (width m) = Inr (x, r1)" and
    y: "randrange r1 (height m) = Inr (y, r2)" and
    p: "Person_init i (x, y) r2 = (p, r3)" and
    rec: "create_people rest
            (m\<lparr>grid := place_agent (grid m) p (x, y), schedule := schedule_add (schedule m) p\<rparr>) r3
          = Inr (m', r')"
    by (auto split: sum.splits prod.splits)
  have id: "unique_id p = i" using p by (simp add: Person_init_fields)
  have fresh: "unique_id p \<notin> set (map unique_id (schedule m))"
    using Cons.prems(3) id by auto
  have sched: "schedule_add (schedule m) p = schedule m @ [p]"
    using fresh by (rule schedule_add_fresh)
  have "map unique_id (schedule m') =
        map unique_id (schedule (m\<lparr>grid := place_agent (grid m) p (x, y),
                                   schedule := schedule_add (schedule m) p\<rparr>)) @ rest"
  proof (rule Cons.IH [OF rec])
    show "distinct rest" using Cons.prems(2) by simp
    show "set rest \<inter> set (map unique_id (schedule (m\<lparr>grid := place_agent (grid m) p (x, y),
                                   schedule := schedule_add (schedule m) p\<rparr>))) = {}"
      using Cons.prems(2,3) id by (auto simp add: sched)
  qed
  then show ?case by (simp add: sched id)
qed

lemma schedule_add_set: "set (schedule_add agents p) \<subseteq> insert p (set agents)"
  by (auto simp add: schedule_add_def)

lemma place_agent_member: "unique_id p \<in> set (place_agent g p c c)"
  by (simp add: place_agent_def)

lemma place_agent_mono: "q \<in> set (g d) \<Longrightarrow> q \<in> set (place_agent g p c d)"
  by (auto simp add: place_agent_def)

lemma create_people_grid:
  "create_people is m r = Inr (m', r') \<Longrightarrow> grid_consistent m \<Longrightarrow> grid_consistent m'"
proof (induction "is" arbitrary: m r)
  case Nil
  then show ?case by simp
next
  case (Cons i rest)
  from Cons.prems(1) obtain x r1 y r2 p r3 where
    x: "randrange r (width m) = Inr (x, r1)" and
    y: "randrange r1 (height m) = Inr (y, r2)" and
    p: "Person_init i (x, y) r2 = (p, r3)" and
    rec: "create_people rest
            (m\<lparr>grid := place_agent (grid m) p (x, y), schedule := schedule_add (schedule m) p\<rparr>) r3
          = Inr (m', r')"
    by (auto split: sum.splits prod.splits)
  have pos: "pos p = (x, y)" using p by (simp add: Person_init_fields)
  have bx: "0 \<le> x \<and> x < width m" using x by (simp add: randrange_Inr)
  have "by": "0 \<le> y \<and> y < height m" using y by (simp add: randrange_Inr)
  have "grid_consistent (m\<lparr>grid := place_agent (grid m) p (x, y),
                            schedule := schedule_add (schedule m) p\<rparr>)"
    unfolding grid_consistent_def
  proof
    fix q
    assume "q \<in> set (schedule (m\<lparr>grid := place_agent (grid m) p (x, y),
                            schedule := schedule_add (schedule m) p\<rparr>))"
    then have "q = p \<or> q \<in> set (schedule m)"
      using schedule_add_set [of "schedule m" p] by auto
    then show "unique_id q \<in> set (grid (m\<lparr>grid := place_agent (grid m) p (x, y),
                            schedule := schedule_add (schedule m) p\<rparr>) (pos q))
        \<and> 0 \<le> fst (pos q)
        \<and> fst (pos q) < width (m\<lparr>grid := place_agent (grid m) p (x, y),
                            schedule := schedule_add (schedule m) p\<rparr>)
        \<and> 0 \<le> snd (pos q)
        \<and> snd (pos q) < height (m\<lparr>grid := place_agent (grid m) p (x, y),
                            schedule := schedule_add (schedule m) p\<rparr>)"
    proof
      assume "q = p"
      then show ?thesis
        using pos bx "by" place_agent_member [of p "grid m" "(x, y)"] by simp
    next
      assume "q \<in> set (schedule m)"
      then show ?thesis
        using Cons.prems(2) by (simp add: grid_consistent_def place_agent_mono)
    qed
  qed
  then show ?case by (rule Cons.IH [OF rec])
qed

lemma range_py_distinct: "distinct (range_py n)"
  by (simp add: range_py_def distinct_map inj_on_def)

lemma length_range_py: "int (length (range_py n)) = max 0 n"
  by (simp add: range_py_def)

lemma init_result:
  assumes "BankReservesModel_init args g = (Inr (m, r), g')"
  shows "uid m = g \<and> g' = g + 1 \<and> run_time m = None \<and> init_people m = arg_init_people args
       \<and> width m = arg_width args \<and> height m = arg_height args
       \<and> map unique_id (schedule m) = range_py (arg_init_people args)
       \<and> grid_consistent m"
proof -
  let ?self = "\<lparr>uid = g, height = arg_height args, width = arg_width args,
      init_people = arg_init_people args, schedule = [], grid = (\<lambda>c. []),
      rich_threshold = arg_rich_threshold args, trade_threshold = arg_trade_threshold args,
      model_reserve_percent = arg_reserve_percent args, bank = Bank_init (arg_reserve_percent args),
      running = None, run_time = None\<rparr>"
  from assms obtain m0 where
    cp: "create_people (range_py (arg_init_people args)) ?self (arg_random args) = Inr (m0, r)"
    and m: "m = m0\<lparr>running := Some True\<rparr>" and g: "g' = g + 1"
    by (auto simp add: BankReservesModel_init_def Let_def split: sum.splits prod.splits)
  have f: "uid m0 = g \<and> run_time m0 = None \<and> init_people m0 = arg_init_people args
      \<and> width m0 = arg_width args \<and> height m0 = arg_height args"
    using create_people_fields [OF cp] by simp
  have ids: "map unique_id (schedule m0) = range_py (arg_init_people args)"
    using create_people_ids [OF cp range_py_distinct] by simp
  have "grid_consistent ?self" by (simp add: grid_consistent_def)
  then have gc: "grid_consistent m0" by (rule create_people_grid [OF cp])
  show ?thesis
    using f ids gc g by (simp add: m grid_consistent_def)
qed

lemma init_counter: "snd (BankReservesModel_init args g) = g + 1"
  by (simp add: BankReservesModel_init_def Let_def)

lemma activate_keeps:
  "keeps_population pstep \<Longrightarrow>
   map unique_id (schedule (fst (activate pstep s key))) = map unique_id (schedule (fst s))"
  by (simp add: activate_def keeps_population_def del: split_paired_All)

lemma foldl_activate_keeps:
  "keeps_population pstep \<Longrightarrow>
   map unique_id (schedule (fst (foldl (activate pstep) s keys))) = map unique_id (schedule (fst s))"
  by (induction keys arbitrary: s) (simp_all add: activate_keeps)

lemma step_keeps:
  "keeps_population pstep \<Longrightarrow>
   map unique_id (schedule (fst (step pstep s))) = map unique_id (schedule (fst s))"
  by (simp add: step_def foldl_activate_keeps split: prod.splits)

lemma run_steps_keeps:
  "keeps_population pstep \<Longrightarrow>
   map unique_id (schedule (fst (run_steps pstep n s))) = map unique_id (schedule (fst s))"
  by (induction n arbitrary: s) (simp_all add: step_keeps)

lemma construct_all_length: "length (fst (construct_all as g)) = length as"
  by (induction as arbitrary: g) (simp_all add: case_prod_unfold)

lemma construct_all_nth:
  "k < length as \<Longrightarrow> fst (construct_all as g) ! k = Inr (m, r) \<Longrightarrow> uid m = g + int k"
proof (induction as arbitrary: g k)
  case Nil
  then show ?case by simp
next
  case (Cons a as)
  obtain res g1 where i: "BankReservesModel_init a g = (res, g1)"
    by (cases "BankReservesModel_init a g")
  have g1: "g1 = g + 1" using init_counter [of a g] i by simp
  obtain ress g2 where c: "construct_all as g1 = (ress, g2)"
    by (cases "construct_all as g1")
  show ?case
  proof (cases k)
    case 0
    then have "res = Inr (m, r)" using Cons.prems i c by simp
    then show ?thesis using i init_result 0 by simp
  next
    case (Suc j)
    then have "j < length as" and "fst (construct_all as g1) ! j = Inr (m, r)"
      using Cons.prems i c by simp_all
    then have "uid m = g1 + int j" by (rule Cons.IH)
    then show ?thesis using g1 Suc by simp
  qed
qed

lemma constructed_uids_bounds:
  "\<forall>u\<in>set (constructed_uids (fst (construct_all as g))). g \<le> u"
proof (induction as arbitrary: g)
  case Nil
  then show ?case by simp
next
  case (Cons a as)
  obtain res g1 where i: "BankReservesModel_init a g = (res, g1)"
    by (cases "BankReservesModel_init a g")
  have g1: "g1 = g + 1" using init_counter [of a g] i by simp
  obtain ress g2 where c: "construct_all as g1 = (ress, g2)"
    by (cases "construct_all as g1")
  have rest: "\<forall>v\<in>set (constructed_uids ress). g1 \<le> v"
    using Cons.IH [of g1] c by simp
  show ?case
  proof (cases res)
    case (Inl e)
    then show ?thesis using i c rest g1 by fastforce
  next
    case (Inr mr)
    obtain m r where mr: "mr = (m, r)" by (cases mr)
    have "uid m = g" using i Inr mr init_result by simp
    then show ?thesis using i c rest g1 Inr mr by fastforce
  qed
qed

lemma constructed_uids_increasing:
  "sorted_wrt (<) (constructed_uids (fst (construct_all as g)))"
proof (induction as arbitrary: g)
  case Nil
  then show ?case by simp
next
  case (Cons a as)
  obtain res g1 where i: "BankReservesModel_init a g = (res, g1)"
    by (cases "BankReservesModel_init a g")
  have g1: "g1 = g + 1" using init_counter [of a g] i by simp
  obtain ress g2 where c: "construct_all as g1 = (ress, g2)"
    by (cases "construct_all as g1")
  have s: "sorted_wrt (<) (constructed_uids ress)"
    using Cons.IH [of g1] c by simp
  have b: "\<forall>v\<in>set (constructed_uids ress). g1 \<le> v"
    using constructed_uids_bounds [of as g1] c by simp
  show ?case
  proof (cases res)
    case (Inl e)
    then show ?thesis using i c s by simp
  next
    case (Inr mr)
    obtain m r where mr: "mr = (m, r)" by (cases mr)
    have "uid m = g" using i Inr mr init_result by simp
    then show ?thesis using i c s b g1 Inr mr by fastforce
  qed
qed


lemma create_people_succeeds:
  "0 < width m \<Longrightarrow> 0 < height m \<Longrightarrow> \<exists>m' r'. create_people is m r = Inr (m', r')"
proof (induction "is" arbitrary: m r)
  case Nil
  show ?case by simp
next
  case (Cons i rest)
  then show ?case
    by (simp add: randrange_def Person_init_def)
qed

lemma init_succeeds:
  assumes "0 < arg_width args" and "0 < arg_height args"
  shows "\<exists>m r. BankReservesModel_init args g = (Inr (m, r), g + 1)"
proof -
  let ?self = "\<lparr>uid = g, height = arg_height args, width = arg_width args,
      init_people = arg_init_people args, schedule = [], grid = (\<lambda>c. []),
      rich_threshold = arg_rich_threshold args, trade_threshold = arg_trade_threshold args,
      model_reserve_percent = arg_reserve_percent args, bank = Bank_init (arg_reserve_percent args),
      running = None, run_time = None\<rparr>"
  have "\<exists>m' r'. create_people (range_py (arg_init_people args)) ?self (arg_random args) = Inr (m', r')"
    using assms by (intro create_people_succeeds) simp_all
  then show ?thesis
    by (auto simp add: BankReservesModel_init_def Let_def)
qed

lemma init_fails:
  assumes "arg_width args \<le> 0 \<or> arg_height args \<le> 0" and "0 < arg_init_people args"
  shows "BankReservesModel_init args g = (Inl ValueError, g + 1)"
proof -
  obtain k where "nat (arg_init_people args) = Suc k"
    using assms(2) by (cases "nat (arg_init_people args)") simp_all
  then have "range_py (arg_init_people args) = 0 # map int [1..<Suc k]"
    by (simp add: range_py_def upt_rec)
  then show ?thesis
    using assms(1)
    by (auto simp add: BankReservesModel_init_def Let_def randrange_def)
qed

lemma deposit_wallet_step_keeps: "keeps_population deposit_wallet_step"
proof -
  have "map unique_id (schedule (fst (deposit_wallet_step key s))) = map unique_id (schedule (fst s))"
    for key s
  proof (cases "find (\<lambda>p. unique_id p = key) (schedule (fst s))")
    case None
    then show ?thesis by (simp add: deposit_wallet_step_def)
  next
    case (Some p)
    then have "unique_id p = key"
      by (auto simp add: find_Some_iff)
    then show ?thesis
      using Some by (simp add: deposit_wallet_step_def deposit_def comp_def cong: map_cong)
  qed
  then show ?thesis
    by (simp add: keeps_population_def del: split_paired_All)
qed

text \<open>A construction that raises has still advanced the counter.\<close>

lemma zero_width_construction_raises:
  "BankReservesModel_init zero_width_args g = (Inl ValueError, g + 1)"
  by (rule init_fails) (simp_all add: zero_width_args_def)


text \<open>
  C6. For every sequence of constructions within one process, the \<open>k\<close>-th construction
  receives uid \<open>k\<close>: the class-wide counter starts at 1 and is shared by all constructions,
  so the uids of the models are pairwise distinct and strictly increasing in construction
  order. Positions in the list count from 0, and \<open>k\<close> counts constructor calls: a call that
  raises after line 156 has drawn its number.
\<close>

theorem uid_counter:
  "(\<forall>k m r. k < length as \<longrightarrow> fst (construct_all as id_gen_start) ! k = Inr (m, r) \<longrightarrow>
       uid m = int k + 1)
   \<and> sorted_wrt (<) (constructed_uids (fst (construct_all as id_gen_start)))
   \<and> distinct (constructed_uids (fst (construct_all as id_gen_start)))"
proof -
  have s: "sorted_wrt (<) (constructed_uids (fst (construct_all as id_gen_start)))"
    by (rule constructed_uids_increasing)
  then have "distinct (constructed_uids (fst (construct_all as id_gen_start)))"
    by (simp add: strict_sorted_iff)
  then show ?thesis
    using s construct_all_nth [of _ as id_gen_start] by (auto simp add: id_gen_start_def)
qed

theorem uid_counter_witness:
  "2 < length [small_args, small_args, small_args]
   \<and> (\<exists>m r. fst (construct_all [small_args, small_args, small_args] id_gen_start) ! 2 = Inr (m, r)
          \<and> uid m = 3)"
proof -
  have p: "0 < arg_width small_args" "0 < arg_height small_args"
    by (simp_all add: small_args_def)
  obtain m1 r1 where c1: "BankReservesModel_init small_args 1 = (Inr (m1, r1), 2)"
    using init_succeeds [OF p, of 1] by auto
  obtain m2 r2 where c2: "BankReservesModel_init small_args 2 = (Inr (m2, r2), 3)"
    using init_succeeds [OF p, of 2] by auto
  obtain m3 r3 where c3: "BankReservesModel_init small_args 3 = (Inr (m3, r3), 4)"
    using init_succeeds [OF p, of 3] by auto
  have n: "fst (construct_all [small_args, small_args, small_args] id_gen_start) ! 2 = Inr (m3, r3)"
    by (simp add: id_gen_start_def c1 c2 c3)
  have l: "2 < length [small_args, small_args, small_args]"
    by simp
  have "uid m3 = int 2 + 1"
    using uid_counter [of "[small_args, small_args, small_args]"] l n by blast
  then show ?thesis
    using l n by auto
qed

text \<open>
  Outside the domain of the parameter: \<^verbatim>\<open>init_people\<close> is a population size, and
  \<^verbatim>\<open>__init__\<close> does not check it. For a value that is not positive \<^verbatim>\<open>range\<close> is empty, the loop
  body never runs and the constructor returns a model with an empty schedule.
\<close>

lemma nonpositive_init_people_empty:
  assumes "arg_init_people args \<le> 0"
  shows "\<exists>m r. BankReservesModel_init args g = (Inr (m, r), g + 1) \<and> schedule m = []"
  using assms by (simp add: BankReservesModel_init_def range_py_def)

text \<open>
  C7. For every model constructed with parameter \<^verbatim>\<open>init_people\<close> (a population size, so not
  negative), initialization creates exactly \<^verbatim>\<open>init_people\<close> Person agents, each placed on the
  grid at its randomly chosen position and added to the schedule, and \<^verbatim>\<open>step\<close> neither
  creates nor destroys agents, so the population size stays equal to \<^verbatim>\<open>init_people\<close> after
  every number of steps. \<^verbatim>\<open>step\<close> only activates the scheduled agents; the activation itself,
  \<^verbatim>\<open>Person.step\<close>, is a parameter that keeps the population.
\<close>

theorem population_fixed:
  assumes "BankReservesModel_init args g = (Inr (m, r), g')"
    and "0 \<le> arg_init_people args"
    and "keeps_population pstep"
  shows "init_people m = arg_init_people args
       \<and> int (length (schedule m)) = init_people m
       \<and> map unique_id (schedule m) = range_py (init_people m)
       \<and> grid_consistent m
       \<and> (\<forall>n r0. int (length (schedule (fst (run_steps pstep n (m, r0))))) = init_people m)"
proof -
  have i: "init_people m = arg_init_people args"
    and ids: "map unique_id (schedule m) = range_py (arg_init_people args)"
    and gc: "grid_consistent m"
    using init_result [OF assms(1)] by simp_all
  have "length (map unique_id (schedule m)) = length (range_py (arg_init_people args))"
    using ids by simp
  then have len: "int (length (schedule m)) = arg_init_people args"
    using assms(2) length_range_py [of "arg_init_people args"] by simp
  have "int (length (schedule (fst (run_steps pstep n (m, r0))))) = arg_init_people args" for n r0
  proof -
    have "length (map unique_id (schedule (fst (run_steps pstep n (m, r0)))))
          = length (map unique_id (schedule m))"
      using run_steps_keeps [OF assms(3), of n "(m, r0)"] by simp
    then show ?thesis using len by simp
  qed
  then show ?thesis
    using i ids gc len by simp
qed

theorem population_fixed_witness:
  "0 \<le> arg_init_people small_args \<and> keeps_population deposit_wallet_step
   \<and> (\<exists>m r. BankReservesModel_init small_args 1 = (Inr (m, r), 2)
         \<and> length (schedule m) = 2
         \<and> length (schedule (fst (run_steps deposit_wallet_step 3 (m, r)))) = 2)"
proof -
  have h2: "0 \<le> arg_init_people small_args"
    by (simp add: small_args_def)
  have h3: "keeps_population deposit_wallet_step"
    by (rule deposit_wallet_step_keeps)
  obtain m r where h1: "BankReservesModel_init small_args 1 = (Inr (m, r), 2)"
    using init_succeeds [of small_args 1] by (auto simp add: small_args_def)
  have "int (length (schedule m)) = 2 \<and> int (length (schedule (fst (run_steps deposit_wallet_step 3 (m, r))))) = 2"
    using population_fixed [OF h1 h2 h3] by (simp add: small_args_def)
  then show ?thesis
    using h1 h2 h3 by auto
qed

text \<open>
  C9. For every freshly constructed model, \<^verbatim>\<open>run_model\<close> raises \<^verbatim>\<open>AttributeError\<close>: it reads
  \<^verbatim>\<open>self.run_time\<close>, an attribute that \<^verbatim>\<open>__init__\<close> does not assign, so it never completes
  normally, whatever \<^verbatim>\<open>Person.step\<close> is and whatever the random source holds.
\<close>

theorem run_model_fails:
  assumes "BankReservesModel_init args g = (Inr (m, r), g')"
  shows "run_model pstep (m, r0) = Inl AttributeError"
  using init_result [OF assms] by (simp add: run_model_def)

theorem run_model_fails_witness:
  "\<exists>m r. BankReservesModel_init small_args 1 = (Inr (m, r), 2)
         \<and> run_model deposit_wallet_step (m, r) = Inl AttributeError"
proof -
  obtain m r where h1: "BankReservesModel_init small_args 1 = (Inr (m, r), 2)"
    using init_succeeds [of small_args 1] by (auto simp add: small_args_def)
  show ?thesis
    using h1 run_model_fails [OF h1, of deposit_wallet_step r] by blast
qed


end
